theory Spec2Isabelle
  imports Complex_Main "HOL-Library.Sublist"
begin

section \<open>Python strings and values\<close>

text \<open>
  A Python \<open>str\<close> is a sequence of Unicode code points; a code point is a natural number.
  \<open>py\<close> turns an ASCII literal into such a sequence.  The source file's non-ASCII
  characters are written as the code points that the file holds.
\<close>

type_synonym pystr = "nat list"

definition py :: "string \<Rightarrow> pystr" where
  "py s = map of_char s"

text \<open>\<open>sep.join(parts)\<close>\<close>

fun join :: "pystr \<Rightarrow> pystr list \<Rightarrow> pystr" where
  "join sep [] = []"
| "join sep [x] = x"
| "join sep (x # y # ys) = x @ sep @ join sep (y # ys)"

text \<open>\<open>str(i)\<close> for a non-negative integer: its decimal digits.\<close>

fun dec :: "nat \<Rightarrow> pystr" where
  "dec n = (if n < 10 then [48 + n] else dec (n div 10) @ [48 + n mod 10])"

text \<open>
  The values a decoded JSON document consists of.  A \<open>dict\<close> is the list of its items in
  insertion order; a JSON number with a fraction is a \<open>float\<close>, modelled by the real number
  it denotes (only its being zero or not is ever inspected).
\<close>

datatype pyval =
    PNone
  | PBool bool
  | PInt int
  | PFloat real
  | PStr pystr
  | PList "pyval list"
  | PDict "(pystr \<times> pyval) list"

type_synonym pydict = "(pystr \<times> pyval) list"

text \<open>
  Exceptions derived from \<open>Exception\<close>; the argument is \<open>str(e)\<close>.  \<open>LibraryError\<close> is any
  such exception raised inside a third-party library.
\<close>

datatype py_exception =
    TypeError pystr
  | AttributeError pystr
  | KeyError pystr
  | ValueError pystr
  | EOFError pystr
  | LibraryError pystr

fun exc_str :: "py_exception \<Rightarrow> pystr" where
  "exc_str (TypeError m) = m"
| "exc_str (AttributeError m) = m"
| "exc_str (KeyError m) = m"
| "exc_str (ValueError m) = m"
| "exc_str (EOFError m) = m"
| "exc_str (LibraryError m) = m"

fun type_name :: "pyval \<Rightarrow> pystr" where
  "type_name PNone = py ''NoneType''"
| "type_name (PBool b) = py ''bool''"
| "type_name (PInt i) = py ''int''"
| "type_name (PFloat x) = py ''float''"
| "type_name (PStr s) = py ''str''"
| "type_name (PList xs) = py ''list''"
| "type_name (PDict kvs) = py ''dict''"

text \<open>Truth value of an object, as \<open>not patents\<close> tests it.\<close>

fun truthy :: "pyval \<Rightarrow> bool" where
  "truthy PNone = False"
| "truthy (PBool b) = b"
| "truthy (PInt i) = (i \<noteq> 0)"
| "truthy (PFloat x) = (x \<noteq> 0)"
| "truthy (PStr s) = (s \<noteq> [])"
| "truthy (PList xs) = (xs \<noteq> [])"
| "truthy (PDict kvs) = (kvs \<noteq> [])"

text \<open>
  Iterating over an object: a list yields its elements, a string its characters, a dict
  its keys; anything else is not iterable.
\<close>

fun py_iter :: "pyval \<Rightarrow> py_exception + pyval list" where
  "py_iter (PList xs) = Inr xs"
| "py_iter (PStr s) = Inr (map (\<lambda>c. PStr [c]) s)"
| "py_iter (PDict kvs) = Inr (map (\<lambda>kv. PStr (fst kv)) kvs)"
| "py_iter v = Inl (TypeError ([39] @ type_name v @ [39] @ py '' object is not iterable''))"

text \<open>
  A replacement field \<open>{v}\<close> of an f-string: a string is inserted as it is, any other
  object through Python's built-in \<open>str\<close>, which is the parameter \<open>render\<close>.
\<close>

fun py_format :: "(pyval \<Rightarrow> pystr) \<Rightarrow> pyval \<Rightarrow> pystr" where
  "py_format render (PStr s) = s"
| "py_format render v = render v"

text \<open>\<open>d.get(key, default)\<close> on a dict.\<close>

definition dict_get :: "pydict \<Rightarrow> pystr \<Rightarrow> pyval \<Rightarrow> pyval" where
  "dict_get d key dflt = (case map_of d key of None \<Rightarrow> dflt | Some v \<Rightarrow> v)"

section \<open>PatentSearchTool.search_patents\<close>

text \<open>
  The SerpAPI client is a parameter: given the request parameters it raises or returns
  the decoded response, a dict.
\<close>

type_synonym client = "pydict \<Rightarrow> py_exception + pydict"

definition params :: "pystr \<Rightarrow> pydict" where
  "params query =
     [(py ''engine'', PStr (py ''google_patents'')),
      (py ''q'', PStr query),
      (py ''num'', PInt 10)]"

text \<open>
  The body of the \<open>for\<close> loop on a dict \<open>d\<close>: the six \<open>patent.get\<close> calls with their
  defaults and the seven strings appended for result \<open>i\<close>.
\<close>

definition entry_block :: "(pyval \<Rightarrow> pystr) \<Rightarrow> nat \<Rightarrow> pydict \<Rightarrow> pystr list" where
  "entry_block render i d =
     (let title = dict_get d (py ''title'') (PStr (py ''No title available''));
          snippet = dict_get d (py ''snippet'') (PStr (py ''No description available''));
          patent_id = dict_get d (py ''patent_id'') (PStr (py ''No patent ID''));
          inventor = dict_get d (py ''inventor'') (PStr (py ''Unknown inventor''));
          assignee = dict_get d (py ''assignee'') (PStr (py ''Unknown assignee''));
          publication_date = dict_get d (py ''publication_date'') (PStr (py ''Unknown date''))
      in [[10] @ dec i @ py ''. '' @ py_format render title,
          py ''   Patent ID: '' @ py_format render patent_id,
          py ''   Inventor: '' @ py_format render inventor,
          py ''   Assignee: '' @ py_format render assignee,
          py ''   Publication Date: '' @ py_format render publication_date,
          py ''   Description: '' @ py_format render snippet,
          replicate 40 45])"

text \<open>
  The loop body on any element: the first \<open>patent.get\<close> raises \<open>AttributeError\<close> when the
  element is not a dict.
\<close>

definition format_patent :: "(pyval \<Rightarrow> pystr) \<Rightarrow> nat \<Rightarrow> pyval \<Rightarrow> py_exception + pystr list" where
  "format_patent render i patent =
     (case patent of
        PDict d \<Rightarrow> Inr (entry_block render i d)
      | _ \<Rightarrow> Inl (AttributeError ([39] @ type_name patent @ [39] @ py '' object has no attribute ''
                                  @ [39] @ py ''get'' @ [39])))"

text \<open>\<open>for i, patent in enumerate(patents, 1)\<close>, appending to \<open>formatted_results\<close>.\<close>

fun format_loop ::
  "(pyval \<Rightarrow> pystr) \<Rightarrow> nat \<Rightarrow> pyval list \<Rightarrow> pystr list \<Rightarrow> py_exception + pystr list" where
  "format_loop render i [] formatted_results = Inr formatted_results"
| "format_loop render i (patent # patents) formatted_results =
     (case format_patent render i patent of
        Inl e \<Rightarrow> Inl e
      | Inr block \<Rightarrow> format_loop render (Suc i) patents (formatted_results @ block))"

text \<open>The \<open>try\<close> block.\<close>

definition search_patents_try :: "client \<Rightarrow> (pyval \<Rightarrow> pystr) \<Rightarrow> pystr \<Rightarrow> py_exception + pystr" where
  "search_patents_try search render query =
     (case search (params query) of
        Inl e \<Rightarrow> Inl e
      | Inr results \<Rightarrow>
          (case map_of results (py ''error'') of
             Some err \<Rightarrow> Inr (py ''Error in patent search: '' @ py_format render err)
           | None \<Rightarrow>
               (let patents = dict_get results (py ''organic_results'') (PList [])
                in if \<not> truthy patents
                   then Inr (py ''No patents found for query: '' @ [39] @ query @ [39])
                   else
                     (case py_iter patents of
                        Inl e \<Rightarrow> Inl e
                      | Inr elems \<Rightarrow>
                          (case format_loop render 1 elems
                                  [py ''Patent Search Results for: '' @ [39] @ query @ [39],
                                   replicate 50 61] of
                             Inl e \<Rightarrow> Inl e
                           | Inr formatted_results \<Rightarrow> Inr (join [10] formatted_results))))))"

text \<open>The whole method: \<open>except Exception as e\<close> turns every exception into a string.\<close>

definition search_patents :: "client \<Rightarrow> (pyval \<Rightarrow> pystr) \<Rightarrow> pystr \<Rightarrow> pystr" where
  "search_patents search render query =
     (case search_patents_try search render query of
        Inr s \<Rightarrow> s
      | Inl e \<Rightarrow> py ''Error occurred during patent search: '' @ exc_str e)"

section \<open>PatentAnalysisAgent.analyze_invention\<close>

text \<open>
  The agent executor of the framework is a parameter: \<open>invoke\<close> takes the input dict and
  raises or returns the result dict.
\<close>

type_synonym engine = "pydict \<Rightarrow> py_exception + pydict"

definition analysis_prompt :: "pystr \<Rightarrow> pystr" where
  "analysis_prompt invention_description =
     py ''Please analyze this invention and search for similar patents:'' @ [10, 10]
     @ py ''Invention Description: '' @ invention_description @ [10, 10]
     @ py ''Please follow these steps:'' @ [10]
     @ py ''1. Extract key technical concepts and keywords'' @ [10]
     @ py ''2. Generate and execute 2-3 different search strategies'' @ [10]
     @ py ''3. Analyze the results and provide a comprehensive summary'' @ [10]
     @ py ''4. Provide recommendations for patent strategy''"

text \<open>The \<open>try\<close> block; \<open>result["output"]\<close> raises \<open>KeyError\<close> when the key is absent.\<close>

definition analyze_invention_try :: "engine \<Rightarrow> pystr \<Rightarrow> py_exception + pyval" where
  "analyze_invention_try invoke invention_description =
     (case invoke [(py ''input'', PStr (analysis_prompt invention_description))] of
        Inl e \<Rightarrow> Inl e
      | Inr result \<Rightarrow>
          (case map_of result (py ''output'') of
             None \<Rightarrow> Inl (KeyError ([39] @ py ''output'' @ [39]))
           | Some out \<Rightarrow> Inr out))"

definition analyze_invention :: "engine \<Rightarrow> pystr \<Rightarrow> pyval" where
  "analyze_invention invoke invention_description =
     (case analyze_invention_try invoke invention_description of
        Inr out \<Rightarrow> out
      | Inl e \<Rightarrow> PStr (py ''Error during patent analysis: '' @ exc_str e))"

section \<open>The interactive shell\<close>

text \<open>
  The console: the lines that \<open>input()\<close> has still to deliver, and what the program has
  done so far, in order.
\<close>

datatype event =
    Print pystr
  | Agent_init
  | Engine_invoke pystr
  | Print_exc py_exception

record world =
  stdin :: "pystr list"
  events :: "event list"

definition print :: "pystr \<Rightarrow> world \<Rightarrow> world" where
  "print s w = w\<lparr>events := events w @ [Print s]\<rparr>"

text \<open>\<open>input()\<close> raises \<open>EOFError\<close> at the end of the input.\<close>

definition input :: "world \<Rightarrow> (py_exception + pystr) \<times> world" where
  "input w =
     (case stdin w of
        [] \<Rightarrow> (Inl (EOFError (py ''EOF when reading a line'')), w)
      | line # rest \<Rightarrow> (Inr line, w\<lparr>stdin := rest\<rparr>))"

text \<open>The code points that \<open>str.strip()\<close> removes: those for which \<open>str.isspace\<close> holds.\<close>

definition is_space :: "nat \<Rightarrow> bool" where
  "is_space c =
     ((9 \<le> c \<and> c \<le> 13) \<or> (28 \<le> c \<and> c \<le> 32) \<or> c = 0x85 \<or> c = 0xA0 \<or> c = 0x1680
      \<or> (0x2000 \<le> c \<and> c \<le> 0x200A) \<or> c = 0x2028 \<or> c = 0x2029 \<or> c = 0x202F
      \<or> c = 0x205F \<or> c = 0x3000)"

definition strip :: "pystr \<Rightarrow> pystr" where
  "strip s = rev (dropWhile is_space (rev (dropWhile is_space s)))"

subsection \<open>print_welcome\<close>

definition print_welcome :: "world \<Rightarrow> world" where
  "print_welcome w =
     (let w = print (replicate 60 61) w;
          w = print (py ''    '' @ [0x11f, 0x178, 0x201d]
                     @ py '' PATENT COPILOT - Patent Search Agent '' @ [0x11f, 0x178, 0x201d]) w;
          w = print (replicate 60 61) w;
          w = print ([10] @ py ''Welcome! I'' @ [39]
                     @ py ''ll help you search for patents similar to your invention.'') w;
          w = print ([10] @ py ''How to use:'') w;
          w = print ([0xe2, 0x20ac, 0xa2] @ py '' Describe your invention in detail'') w;
          w = print ([0xe2, 0x20ac, 0xa2]
                     @ py '' Include key technical features and functionality'') w;
          w = print ([0xe2, 0x20ac, 0xa2] @ py '' Be specific about what makes it unique'') w;
          w = print ([10] @ py ''Example: '' @ [39]
                     @ py ''A smart water bottle that tracks hydration levels'') w;
          w = print (py ''using sensors and sends reminders to a mobile app'' @ [39]) w
      in print ([10] @ replicate 60 45) w)"

subsection \<open>get_user_input\<close>

text \<open>The first \<open>while\<close> loop: read until two blank lines in a row have been read.\<close>

function read_lines :: "pystr list \<Rightarrow> nat \<Rightarrow> world \<Rightarrow> (py_exception + pystr list) \<times> world" where
  "read_lines lines empty_lines w =
     (if empty_lines < 2 then
        (case input w of
           (Inl e, w') \<Rightarrow> (Inl e, w')
         | (Inr line, w') \<Rightarrow>
             read_lines (lines @ [line]) (if strip line = [] then empty_lines + 1 else 0) w')
      else (Inr lines, w))"
  by pat_completeness auto
termination
  by (relation "measure (\<lambda>(lines, empty_lines, w). length (stdin w))")
     (auto simp: input_def split: list.splits)

text \<open>The second \<open>while\<close> loop: \<open>lines.pop()\<close> as long as the last line is blank.\<close>

function pop_trailing :: "pystr list \<Rightarrow> pystr list" where
  "pop_trailing lines =
     (if lines \<noteq> [] \<and> strip (last lines) = [] then pop_trailing (butlast lines) else lines)"
  by pat_completeness auto
termination
  by (relation "measure length") auto

text \<open>
  The whole function.  It calls itself when the description is empty; the interpreter's
  bound on the depth of recursion is outside this model.
\<close>

function get_user_input :: "world \<Rightarrow> (py_exception + pystr) \<times> world" where
  "get_user_input w =
     (let w1 = print ([10, 0x11f, 0x178, 0x201c] @ py '' Please describe your invention:'') w;
          w2 = print (py ''(Press Enter twice when finished)'') w1
      in case read_lines [] 0 w2 of
           (Inl e, w3) \<Rightarrow> (Inl e, w3)
         | (Inr lines, w3) \<Rightarrow>
             (let description = strip (join [10] (pop_trailing lines))
              in if description = []
                 then get_user_input
                        (print ([0xe2, 0x152]
                                @ py '' Please provide a description of your invention.'') w3)
                 else (Inr description, w3)))"
  by pat_completeness auto
termination
proof (relation "measure (\<lambda>w. length (stdin w))", goal_cases)
  case 1
  show ?case by simp
next
  case (2 w w1 w2 x y z)
  have consumes: "\<And>lines empty_lines v ls v'.
     read_lines lines empty_lines v = (Inr ls, v') \<Longrightarrow>
     length (stdin v') + (2 - empty_lines) \<le> length (stdin v)"
  proof -
    fix lines empty_lines v ls v'
    assume "read_lines lines empty_lines v = (Inr ls, v')"
    then show "length (stdin v') + (2 - empty_lines) \<le> length (stdin v)"
    proof (induction lines empty_lines v rule: read_lines.induct)
      case (1 lines empty_lines v)
      show ?case
      proof (cases "empty_lines < 2")
        case False
        with "1.prems" show ?thesis by simp
      next
        case True
        show ?thesis
        proof (cases "stdin v")
          case Nil
          with True "1.prems" show ?thesis by (simp add: input_def)
        next
          case (Cons line rest)
          let ?v = "v\<lparr>stdin := rest\<rparr>"
          let ?e = "if strip line = [] then empty_lines + 1 else 0"
          from Cons have inp: "input v = (Inr line, ?v)" by (simp add: input_def)
          with True "1.prems" have "read_lines (lines @ [line]) ?e ?v = (Inr ls, v')"
            by simp
          from "1.IH" [OF True inp [symmetric] refl this] Cons True
          show ?thesis by (simp split: if_splits)
        qed
      qed
    qed
  qed
  from 2 consumes [of "[]" 0 w2 z y] show ?case
    by (simp add: print_def)
qed

subsection \<open>main\<close>

text \<open>The process environment after \<open>load_dotenv()\<close>; \<open>unset env name\<close> is \<open>not os.getenv(name)\<close>.\<close>

type_synonym env = "pystr \<rightharpoonup> pystr"

definition unset :: "env \<Rightarrow> pystr \<Rightarrow> bool" where
  "unset env name = (case env name of None \<Rightarrow> True | Some v \<Rightarrow> v = [])"

text \<open>
  What the libraries do when the agent is built and run: the exception a constructor
  raises, if any, and the agent executor's \<open>invoke\<close>.
\<close>

record externals =
  llm_ctor :: "py_exception option"
  client_ctor :: "py_exception option"
  agent_ctor :: "py_exception option"
  invoke :: engine

definition PatentSearchTool_init :: "env \<Rightarrow> externals \<Rightarrow> py_exception + unit" where
  "PatentSearchTool_init env ext =
     (if unset env (py ''SERPAPI_API_KEY'')
      then Inl (ValueError (py ''SERPAPI_API_KEY not found in environment variables''))
      else (case client_ctor ext of Some e \<Rightarrow> Inl e | None \<Rightarrow> Inr ()))"

definition PatentAnalysisAgent_init :: "env \<Rightarrow> externals \<Rightarrow> py_exception + unit" where
  "PatentAnalysisAgent_init env ext =
     (if unset env (py ''GEMINI_API_KEY'')
      then Inl (ValueError (py ''GEMINI_API_KEY not found in environment variables''))
      else
        (case llm_ctor ext of
           Some e \<Rightarrow> Inl e
         | None \<Rightarrow>
             (case PatentSearchTool_init env ext of
                Inl e \<Rightarrow> Inl e
              | Inr u \<Rightarrow> (case agent_ctor ext of Some e \<Rightarrow> Inl e | None \<Rightarrow> Inr ()))))"

definition record_event :: "event \<Rightarrow> world \<Rightarrow> world" where
  "record_event ev w = w\<lparr>events := events w @ [ev]\<rparr>"

text \<open>The \<open>try\<close> block of \<open>main\<close>.\<close>

definition main_try :: "env \<Rightarrow> externals \<Rightarrow> (pyval \<Rightarrow> pystr) \<Rightarrow> world \<Rightarrow> (py_exception + unit) \<times> world" where
  "main_try env ext render w0 =
     (let w = print_welcome w0 in
      if unset env (py ''GEMINI_API_KEY'') then
        (let w = print ([0xe2, 0x152]
                        @ py '' Error: GEMINI_API_KEY not found in environment variables'') w;
             w = print (py ''Please create a .env file with your API keys:'') w;
             w = print (py ''GEMINI_API_KEY=your_gemini_api_key'') w;
             w = print (py ''SERPAPI_API_KEY=your_serpapi_key'') w
         in (Inr (), w))
      else if unset env (py ''SERPAPI_API_KEY'') then
        (let w = print ([0xe2, 0x152]
                        @ py '' Error: SERPAPI_API_KEY not found in environment variables'') w;
             w = print (py ''Please create a .env file with your API keys:'') w;
             w = print (py ''GEMINI_API_KEY=your_gemini_api_key'') w;
             w = print (py ''SERPAPI_API_KEY=your_serpapi_key'') w
         in (Inr (), w))
      else
        (let w = print ([0x11f, 0x178, 0xa4, 0x2013]
                        @ py '' Initializing Patent Analysis Agent...'') w;
             w = record_event Agent_init w
         in case PatentAnalysisAgent_init env ext of
              Inl e \<Rightarrow> (Inl e, w)
            | Inr agent \<Rightarrow>
                (let w = print ([0xe2, 0x153, 0x2026] @ py '' Agent ready!'') w
                 in case get_user_input w of
                      (Inl e, w) \<Rightarrow> (Inl e, w)
                    | (Inr invention_description, w) \<Rightarrow>
                        (let w = print ([10, 0x11f, 0x178, 0x201d]
                                   @ py '' Analyzing invention and searching for similar patents...'') w;
                             w = print (py ''This may take a moment...'' @ [10]) w;
                             w = record_event (Engine_invoke invention_description) w;
                             result = analyze_invention (invoke ext) invention_description;
                             w = print ([10, 0x11f, 0x178, 0x201c, 0x160]
                                        @ py '' Analysis Results:'') w;
                             w = print (replicate 60 61) w;
                             w = print (py_format render result) w;
                             w = print ([10] @ replicate 60 61) w
                         in (Inr (), w)))))"

text \<open>\<open>main\<close>: the handler prints the message and the traceback.\<close>

definition main :: "env \<Rightarrow> externals \<Rightarrow> (pyval \<Rightarrow> pystr) \<Rightarrow> world \<Rightarrow> world" where
  "main env ext render w0 =
     (case main_try env ext render w0 of
        (Inr u, w) \<Rightarrow> w
      | (Inl e, w) \<Rightarrow>
          record_event (Print_exc e)
            (print ([10, 0xe2, 0x152] @ py '' An error occurred: '' @ exc_str e) w))"

section \<open>Vocabulary of the properties\<close>

text \<open>The lines of a text, as \<open>s.split("\n")\<close> gives them.\<close>

fun split_lines :: "pystr \<Rightarrow> pystr list" where
  "split_lines [] = [[]]"
| "split_lines (c # cs) =
     (if c = 10 then [] # split_lines cs
      else (case split_lines cs of [] \<Rightarrow> [[c]] | l # ls \<Rightarrow> (c # l) # ls))"

definition single_line :: "pystr \<Rightarrow> bool" where
  "single_line s = (10 \<notin> set s)"

definition is_digit :: "nat \<Rightarrow> bool" where
  "is_digit c = (48 \<le> c \<and> c \<le> 57)"

text \<open>A numbered entry is a line that starts with a decimal number, a full stop and a space.\<close>

definition is_numbered_entry :: "pystr \<Rightarrow> bool" where
  "is_numbered_entry l =
     (takeWhile is_digit l \<noteq> [] \<and> prefix (py ''. '') (dropWhile is_digit l))"

text \<open>A separator rule is a line of fifty \<open>=\<close> or of forty \<open>-\<close>.\<close>

definition is_separator_rule :: "pystr \<Rightarrow> bool" where
  "is_separator_rule l = (l = replicate 50 61 \<or> l = replicate 40 45)"

definition numbered_entries :: "pystr \<Rightarrow> nat" where
  "numbered_entries s = length (filter is_numbered_entry (split_lines s))"

definition separator_rules :: "pystr \<Rightarrow> nat" where
  "separator_rules s = length (filter is_separator_rule (split_lines s))"

definition header :: "pystr \<Rightarrow> pystr" where
  "header query = py ''Patent Search Results for: '' @ [39] @ query @ [39]"

text \<open>
  A well-formed response has no \<open>error\<close> field and a list \<open>organic_results\<close> of records, each
  a dict whose six fields, where present, are one-line texts.
\<close>

fun text_field :: "pyval option \<Rightarrow> bool" where
  "text_field None = True"
| "text_field (Some (PStr s)) = single_line s"
| "text_field (Some v) = False"

definition field_names :: "pystr list" where
  "field_names =
     [py ''title'', py ''snippet'', py ''patent_id'', py ''inventor'', py ''assignee'',
      py ''publication_date'']"

fun well_formed_record :: "pyval \<Rightarrow> bool" where
  "well_formed_record (PDict d) = list_all (\<lambda>k. text_field (map_of d k)) field_names"
| "well_formed_record v = False"

definition well_formed_response :: "pydict \<Rightarrow> pyval list \<Rightarrow> bool" where
  "well_formed_response results records =
     (map_of results (py ''error'') = None
      \<and> map_of results (py ''organic_results'') = Some (PList records)
      \<and> list_all well_formed_record records)"

fun is_dict :: "pyval \<Rightarrow> bool" where
  "is_dict (PDict d) = True"
| "is_dict v = False"

text \<open>The strings that the loop appends for a list of records, numbered from \<open>i\<close>.\<close>

fun blocks :: "(pyval \<Rightarrow> pystr) \<Rightarrow> nat \<Rightarrow> pyval list \<Rightarrow> pystr list" where
  "blocks render i [] = []"
| "blocks render i (PDict d # ps) = entry_block render i d @ blocks render (Suc i) ps"
| "blocks render i (v # ps) = blocks render (Suc i) ps"

text \<open>The four lines printed when the credential \<open>name\<close> is missing.\<close>

definition remediation :: "pystr \<Rightarrow> pystr list" where
  "remediation name =
     [[0xe2, 0x152] @ py '' Error: '' @ name @ py '' not found in environment variables'',
      py ''Please create a .env file with your API keys:'',
      py ''GEMINI_API_KEY=your_gemini_api_key'',
      py ''SERPAPI_API_KEY=your_serpapi_key'']"

text \<open>
  A blank line is one that \<open>strip\<close> empties; \<open>no_double_blank\<close> holds of lines without two
  blank lines in a row.
\<close>

definition blank :: "pystr \<Rightarrow> bool" where
  "blank l = (strip l = [])"

fun no_double_blank :: "pystr list \<Rightarrow> bool" where
  "no_double_blank (a # b # ls) = (\<not> (blank a \<and> blank b) \<and> no_double_blank (b # ls))"
| "no_double_blank ls = True"

text \<open>What \<open>get_user_input\<close> prints when it starts, and before it calls itself again.\<close>

definition prompt :: "event list" where
  "prompt =
     [Print ([10, 0x11f, 0x178, 0x201c] @ py '' Please describe your invention:''),
      Print (py ''(Press Enter twice when finished)'')]"

definition empty_notice :: "event list" where
  "empty_notice =
     [Print ([0xe2, 0x152] @ py '' Please provide a description of your invention.'')]"

text \<open>A client that answers every request with the same response, and a stand-in for \<open>str\<close>.\<close>

definition answering :: "pydict \<Rightarrow> client" where
  "answering results request = Inr results"

definition failing :: "py_exception \<Rightarrow> client" where
  "failing e request = Inl e"

definition idle_externals :: externals where
  "idle_externals =
     \<lparr>llm_ctor = None, client_ctor = None, agent_ctor = None,
      invoke = failing (LibraryError (py ''offline''))\<rparr>"

definition no_render :: "pyval \<Rightarrow> pystr" where
  "no_render v = py ''?''"

lemma print_stdin [simp]: "stdin (print s w) = stdin w"
  by (simp add: print_def)

declare dec.simps [simp del]
declare read_lines.simps [simp del]
declare pop_trailing.simps [simp del]
declare get_user_input.simps [simp del]

section \<open>Properties of search_patents\<close>

lemma join_nonempty: "x \<noteq> [] \<Longrightarrow> join sep (x # xs) \<noteq> []"
  by (cases xs) simp_all

lemma format_loop_extends:
  "format_loop render i ps acc = Inr fr \<Longrightarrow> \<exists>rest. fr = acc @ rest"
proof (induction ps arbitrary: i acc)
  case Nil
  then show ?case by simp
next
  case (Cons p ps)
  show ?case
  proof (cases "format_patent render i p")
    case (Inl e)
    with Cons.prems show ?thesis by simp
  next
    case (Inr block)
    with Cons.prems have "format_loop render (Suc i) ps (acc @ block) = Inr fr" by simp
    from Cons.IH [OF this] show ?thesis by auto
  qed
qed

lemma search_patents_try_nonempty:
  assumes "search_patents_try search render query = Inr s"
  shows "s \<noteq> []"
proof (cases "search (params query)")
  case (Inl e)
  with assms show ?thesis by (simp add: search_patents_try_def)
next
  case (Inr results)
  show ?thesis
  proof (cases "map_of results (py ''error'')")
    case (Some err)
    with Inr assms have "s = py ''Error in patent search: '' @ py_format render err"
      by (simp add: search_patents_try_def)
    then show ?thesis by (simp add: py_def)
  next
    case None
    define patents where "patents = dict_get results (py ''organic_results'') (PList [])"
    show ?thesis
    proof (cases "truthy patents")
      case False
      with None Inr assms have "s = py ''No patents found for query: '' @ [39] @ query @ [39]"
        by (simp add: search_patents_try_def patents_def)
      then show ?thesis by simp
    next
      case True
      with None Inr assms obtain elems fr where
        "format_loop render 1 elems
           [py ''Patent Search Results for: '' @ [39] @ query @ [39], replicate 50 61] = Inr fr"
        and s: "s = join [10] fr"
        by (auto simp: search_patents_try_def patents_def Let_def split: sum.splits)
      from format_loop_extends [OF this(1)] obtain rest where
        "fr = (py ''Patent Search Results for: '' @ [39] @ query @ [39]) # replicate 50 61 # rest"
        by auto
      with s show ?thesis by (simp add: join_nonempty)
    qed
  qed
qed

text \<open>
  Claim C3.  Whatever the client does (raise or return any response) and whatever the query,
  \<open>search_patents\<close> returns a string that is not empty; an exception raised inside the \<open>try\<close>
  block does not leave the method but becomes the string
  \<open>Error occurred during patent search: <message>\<close>.
\<close>

theorem search_patents_total_nonempty:
  "search_patents search render query \<noteq> [] \<and>
   (\<forall>e. search_patents_try search render query = Inl e \<longrightarrow>
        search_patents search render query
          = py ''Error occurred during patent search: '' @ exc_str e)"
proof
  show "search_patents search render query \<noteq> []"
  proof (cases "search_patents_try search render query")
    case (Inl e)
    then show ?thesis by (simp add: search_patents_def py_def)
  next
    case (Inr s)
    then show ?thesis by (simp add: search_patents_def search_patents_try_nonempty)
  qed
next
  show "\<forall>e. search_patents_try search render query = Inl e \<longrightarrow>
        search_patents search render query
          = py ''Error occurred during patent search: '' @ exc_str e"
    by (simp add: search_patents_def)
qed

theorem search_patents_total_nonempty_witness:
  "search_patents (failing (LibraryError (py ''timeout''))) no_render (py ''drone'')
     = py ''Error occurred during patent search: timeout''
   \<and> search_patents (answering [(py ''organic_results'', PInt 7)]) no_render (py ''drone'')
     = py ''Error occurred during patent search: '' @ [39] @ py ''int'' @ [39]
       @ py '' object is not iterable''"
proof -
  have a: "search_patents_try (failing (LibraryError (py ''timeout''))) no_render (py ''drone'')
        = Inl (LibraryError (py ''timeout''))"
    by (simp add: search_patents_try_def failing_def)
  have b: "search_patents_try (answering [(py ''organic_results'', PInt 7)]) no_render (py ''drone'')
        = Inl (TypeError ([39] @ py ''int'' @ [39] @ py '' object is not iterable''))"
    by (simp add: search_patents_try_def answering_def dict_get_def py_def)
  from a search_patents_total_nonempty
    [of "failing (LibraryError (py ''timeout''))" no_render "py ''drone''"]
  have "search_patents (failing (LibraryError (py ''timeout''))) no_render (py ''drone'')
     = py ''Error occurred during patent search: '' @ py ''timeout''"
    by simp
  moreover from b search_patents_total_nonempty
    [of "answering [(py ''organic_results'', PInt 7)]" no_render "py ''drone''"]
  have "search_patents (answering [(py ''organic_results'', PInt 7)]) no_render (py ''drone'')
     = py ''Error occurred during patent search: '' @ [39] @ py ''int'' @ [39]
       @ py '' object is not iterable''"
    by simp
  ultimately show ?thesis by (simp add: py_def)
qed

text \<open>
  Claim C4.  When the response has no \<open>error\<close> field and its \<open>organic_results\<close> is the empty
  list, \<open>search_patents\<close> returns exactly \<open>No patents found for query: '<query>'\<close>.
\<close>

theorem search_patents_no_results:
  assumes "search (params query) = Inr results"
    and "map_of results (py ''error'') = None"
    and "map_of results (py ''organic_results'') = Some (PList [])"
  shows "search_patents search render query
           = py ''No patents found for query: '' @ [39] @ query @ [39]"
  using assms by (simp add: search_patents_def search_patents_try_def dict_get_def)

theorem search_patents_no_results_witness:
  "search_patents (answering [(py ''organic_results'', PList [])]) no_render (py ''drone'')
     = py ''No patents found for query: '' @ [39] @ py ''drone'' @ [39]"
proof -
  have "map_of [(py ''organic_results'', PList [])] (py ''error'') = None"
    by (simp add: py_def)
  moreover have "map_of [(py ''organic_results'', PList [])] (py ''organic_results'')
                   = Some (PList [])"
    by simp
  ultimately show ?thesis
    using search_patents_no_results
      [of "answering [(py ''organic_results'', PList [])]" "py ''drone''"
          "[(py ''organic_results'', PList [])]" no_render]
    by (simp add: answering_def)
qed

text \<open>
  Claim C5.  When the response has an \<open>error\<close> field, \<open>search_patents\<close> returns (it does not
  raise) the string \<open>Error in patent search: \<close> followed by the error value as an f-string
  inserts it: the output starts with \<open>Error in patent search:\<close> and ends with the error text.
\<close>

theorem search_patents_error_field:
  assumes "search (params query) = Inr results"
    and "map_of results (py ''error'') = Some err"
  shows "search_patents_try search render query
           = Inr (py ''Error in patent search: '' @ py_format render err)
       \<and> search_patents search render query
           = py ''Error in patent search: '' @ py_format render err
       \<and> prefix (py ''Error in patent search:'') (search_patents search render query)
       \<and> suffix (py_format render err) (search_patents search render query)
       \<and> (\<forall>message. err = PStr message \<longrightarrow> suffix message (search_patents search render query))"
proof -
  have body: "search_patents_try search render query
           = Inr (py ''Error in patent search: '' @ py_format render err)"
    using assms by (simp add: search_patents_try_def)
  then have eq: "search_patents search render query
           = py ''Error in patent search: '' @ py_format render err"
    by (simp add: search_patents_def)
  have "prefix (py ''Error in patent search:'')
          (py ''Error in patent search: '' @ py_format render err)"
    by (simp add: py_def)
  moreover have "suffix (py_format render err)
          (py ''Error in patent search: '' @ py_format render err)"
    by (rule suffix_appendI) simp
  ultimately show ?thesis using body eq by auto
qed

theorem search_patents_error_field_witness:
  "search_patents (answering [(py ''error'', PStr (py ''Invalid API key.''))]) no_render
     (py ''drone'')
     = py ''Error in patent search: Invalid API key.''"
proof -
  have "map_of [(py ''error'', PStr (py ''Invalid API key.''))] (py ''error'')
          = Some (PStr (py ''Invalid API key.''))"
    by simp
  then show ?thesis
    using search_patents_error_field
      [of "answering [(py ''error'', PStr (py ''Invalid API key.''))]" "py ''drone''"
          "[(py ''error'', PStr (py ''Invalid API key.''))]" "PStr (py ''Invalid API key.'')"
          no_render]
    by (simp add: py_def answering_def)
qed

section \<open>Properties of analyze_invention\<close>

text \<open>
  Claim C7.  When the agent executor raises an exception \<open>e\<close> on the prompt built from the
  invention description, \<open>analyze_invention\<close> does not raise: it returns the string
  \<open>Error during patent analysis: \<close> followed by \<open>str(e)\<close>.
\<close>

theorem analyze_invention_catches:
  assumes "run [(py ''input'', PStr (analysis_prompt invention_description))] = Inl e"
  shows "analyze_invention_try run invention_description = Inl e
       \<and> analyze_invention run invention_description
           = PStr (py ''Error during patent analysis: '' @ exc_str e)
       \<and> prefix (py ''Error during patent analysis:'')
            (py ''Error during patent analysis: '' @ exc_str e)"
  using assms by (simp add: analyze_invention_def analyze_invention_try_def py_def)

theorem analyze_invention_catches_witness:
  "analyze_invention (failing (LibraryError (py ''quota exceeded''))) (py ''a smart bottle'')
     = PStr (py ''Error during patent analysis: quota exceeded'')"
  using analyze_invention_catches
    [of "failing (LibraryError (py ''quota exceeded''))" "py ''a smart bottle''"
        "LibraryError (py ''quota exceeded'')"]
  by (simp add: failing_def py_def)

section \<open>Properties of main\<close>

lemma print_welcome_events:
  "\<exists>msgs. print_welcome w = w\<lparr>events := events w @ map Print msgs\<rparr>"
proof -
  have "print_welcome w = w\<lparr>events := events w @ map Print
     [replicate 60 61,
      py ''    '' @ [0x11f, 0x178, 0x201d]
        @ py '' PATENT COPILOT - Patent Search Agent '' @ [0x11f, 0x178, 0x201d],
      replicate 60 61,
      [10] @ py ''Welcome! I'' @ [39]
        @ py ''ll help you search for patents similar to your invention.'',
      [10] @ py ''How to use:'',
      [0xe2, 0x20ac, 0xa2] @ py '' Describe your invention in detail'',
      [0xe2, 0x20ac, 0xa2] @ py '' Include key technical features and functionality'',
      [0xe2, 0x20ac, 0xa2] @ py '' Be specific about what makes it unique'',
      [10] @ py ''Example: '' @ [39] @ py ''A smart water bottle that tracks hydration levels'',
      py ''using sensors and sends reminders to a mobile app'' @ [39],
      [10] @ replicate 60 45]\<rparr>"
    by (simp add: print_welcome_def print_def Let_def)
  then show ?thesis by blast
qed

lemma main_try_missing:
  assumes "unset env name"
    and "name = py ''GEMINI_API_KEY''
         \<or> (\<not> unset env (py ''GEMINI_API_KEY'') \<and> name = py ''SERPAPI_API_KEY'')"
  shows "main_try env ext render w
           = (Inr (), (print_welcome w)
                \<lparr>events := events (print_welcome w) @ map Print (remediation name)\<rparr>)"
  using assms by (auto simp: main_try_def Let_def print_def remediation_def py_def)

text \<open>
  Claim C9.  When \<open>GEMINI_API_KEY\<close> or \<open>SERPAPI_API_KEY\<close> is missing (unset or empty), \<open>main\<close>
  prints the welcome banner and then the four remediation lines whose first line names a
  missing variable (\<open>GEMINI_API_KEY\<close> when that one is missing, else \<open>SERPAPI_API_KEY\<close>), and
  returns: everything it has done is printing, so the agent is not initialised, the engine
  is not invoked and no input is read.
\<close>

theorem main_missing_credential:
  assumes "unset env (py ''GEMINI_API_KEY'') \<or> unset env (py ''SERPAPI_API_KEY'')"
  shows "\<exists>name msgs.
           (name = py ''GEMINI_API_KEY'' \<or> name = py ''SERPAPI_API_KEY'')
         \<and> unset env name
         \<and> main env ext render w
             = (print_welcome w)
                 \<lparr>events := events (print_welcome w) @ map Print (remediation name)\<rparr>
         \<and> main env ext render w = w\<lparr>events := events w @ map Print msgs\<rparr>
         \<and> suffix (remediation name) msgs"
proof -
  define name where
    "name = (if unset env (py ''GEMINI_API_KEY'') then py ''GEMINI_API_KEY''
             else py ''SERPAPI_API_KEY'')"
  have which: "name = py ''GEMINI_API_KEY'' \<or> name = py ''SERPAPI_API_KEY''"
    by (simp add: name_def)
  have missing: "unset env name"
    using assms by (auto simp: name_def)
  have order: "name = py ''GEMINI_API_KEY''
         \<or> (\<not> unset env (py ''GEMINI_API_KEY'') \<and> name = py ''SERPAPI_API_KEY'')"
    by (simp add: name_def)
  have m: "main env ext render w
             = (print_welcome w)
                 \<lparr>events := events (print_welcome w) @ map Print (remediation name)\<rparr>"
    by (simp add: main_def main_try_missing [OF missing order])
  obtain banner where "print_welcome w = w\<lparr>events := events w @ map Print banner\<rparr>"
    using print_welcome_events by blast
  with m have "main env ext render w
                 = w\<lparr>events := events w @ map Print (banner @ remediation name)\<rparr>"
    by simp
  moreover have "suffix (remediation name) (banner @ remediation name)"
    by (rule suffix_appendI) simp
  ultimately show ?thesis using which missing m by blast
qed

theorem main_missing_credential_witness:
  "\<exists>msgs. main (Map.empty(py ''GEMINI_API_KEY'' \<mapsto> py ''k'')) idle_externals no_render
             \<lparr>stdin = [], events = []\<rparr>
           = \<lparr>stdin = [], events = map Print msgs\<rparr>
         \<and> suffix (remediation (py ''SERPAPI_API_KEY'')) msgs"
proof -
  let ?env = "Map.empty(py ''GEMINI_API_KEY'' \<mapsto> py ''k'')"
  have g: "\<not> unset ?env (py ''GEMINI_API_KEY'')"
    by (simp add: unset_def py_def)
  have s: "unset ?env (py ''SERPAPI_API_KEY'')"
    by (simp add: unset_def py_def)
  from s have "unset ?env (py ''GEMINI_API_KEY'') \<or> unset ?env (py ''SERPAPI_API_KEY'')" ..
  from main_missing_credential [OF this, of idle_externals no_render "\<lparr>stdin = [], events = []\<rparr>"]
  obtain name msgs where
    "unset ?env name"
    "name = py ''GEMINI_API_KEY'' \<or> name = py ''SERPAPI_API_KEY''"
    "main ?env idle_externals no_render \<lparr>stdin = [], events = []\<rparr>
       = \<lparr>stdin = [], events = [] @ map Print msgs\<rparr>"
    "suffix (remediation name) msgs"
    by auto
  with g show ?thesis by auto
qed

section \<open>Properties of get_user_input\<close>

lemma strip_empty_iff: "strip s = [] \<longleftrightarrow> (\<forall>c\<in>set s. is_space c)"
proof -
  have "strip s = [] \<longleftrightarrow> dropWhile is_space (rev (dropWhile is_space s)) = []"
    by (simp add: strip_def)
  also have "\<dots> \<longleftrightarrow> (\<forall>c\<in>set (dropWhile is_space s). is_space c)"
    by (simp add: dropWhile_eq_Nil_conv)
  also have "\<dots> \<longleftrightarrow> (\<forall>c\<in>set s. is_space c)"
  proof
    assume a: "\<forall>c\<in>set (dropWhile is_space s). is_space c"
    show "\<forall>c\<in>set s. is_space c"
    proof (cases "dropWhile is_space s")
      case Nil
      then show ?thesis by (simp add: dropWhile_eq_Nil_conv)
    next
      case (Cons x xs)
      then have "\<not> is_space x" using hd_dropWhile [of is_space s] by simp
      with a Cons show ?thesis by simp
    qed
  next
    assume "\<forall>c\<in>set s. is_space c"
    then show "\<forall>c\<in>set (dropWhile is_space s). is_space c"
      using set_dropWhileD by fastforce
  qed
  finally show ?thesis .
qed

lemma strip_idem: "strip (strip s) = strip s"
proof -
  define t where "t = dropWhile is_space s"
  define u where "u = rev (dropWhile is_space (rev t))"
  have su: "strip s = u" by (simp add: strip_def t_def u_def)
  have "rev t = takeWhile is_space (rev t) @ dropWhile is_space (rev t)" by simp
  then have "rev (rev t) = rev (takeWhile is_space (rev t) @ dropWhile is_space (rev t))"
    by simp
  have "t = u @ rev (takeWhile is_space (rev t))"
    unfolding u_def by (metis rev_append rev_rev_ident takeWhile_dropWhile_id)
  then obtain v where t: "t = u @ v" ..
  have front: "dropWhile is_space u = u"
  proof (cases u)
    case Nil
    then show ?thesis by simp
  next
    case (Cons x xs)
    with t have "t \<noteq> []" and "hd t = x" by auto
    then have "\<not> is_space x"
      using hd_dropWhile [of is_space s] by (simp add: t_def)
    with Cons show ?thesis by simp
  qed
  have rear: "dropWhile is_space (rev u) = rev u"
    by (simp add: u_def dropWhile_idem)
  have "strip u = u"
    by (simp add: strip_def front rear)
  with su show ?thesis by simp
qed

lemma get_user_input_stripped:
  "get_user_input w = (Inr s, w') \<Longrightarrow> s \<noteq> [] \<and> strip s = s"
proof (induction w rule: get_user_input.induct)
  case (1 w)
  define w2 where "w2 = print (py ''(Press Enter twice when finished)'')
     (print ([10, 0x11f, 0x178, 0x201c] @ py '' Please describe your invention:'') w)"
  obtain r w3 where rl: "read_lines [] 0 w2 = (r, w3)" by (cases "read_lines [] 0 w2")
  show ?case
  proof (cases r)
    case (Inl e)
    with rl "1.prems" show ?thesis
      by (simp add: get_user_input.simps [of w] w2_def Let_def)
  next
    case (Inr lines)
    define description where "description = strip (join [10] (pop_trailing lines))"
    show ?thesis
    proof (cases "description = []")
      case True
      let ?w4 = "print ([0xe2, 0x152] @ py '' Please provide a description of your invention.'') w3"
      from True Inr rl "1.prems" have "get_user_input ?w4 = (Inr s, w')"
        by (simp add: get_user_input.simps [of w] w2_def Let_def description_def)
      moreover note "1.IH"
      ultimately show ?thesis
        using rl Inr True by (simp add: w2_def description_def)
    next
      case False
      with Inr rl "1.prems" have "s = description"
        by (simp add: get_user_input.simps [of w] w2_def Let_def description_def)
      with False show ?thesis by (simp add: description_def strip_idem)
    qed
  qed
qed


lemma input_Cons:
  "input \<lparr>stdin = l # rest, events = ev\<rparr> = (Inr l, \<lparr>stdin = rest, events = ev\<rparr>)"
  by (simp add: input_def)

lemma read_lines_done: "read_lines acc 2 w = (Inr acc, w)"
  by (simp add: read_lines.simps [of acc 2 w])

lemma read_lines_step:
  "e < 2 \<Longrightarrow>
   read_lines acc e \<lparr>stdin = l # rest, events = ev\<rparr>
     = read_lines (acc @ [l]) (if blank l then e + 1 else 0) \<lparr>stdin = rest, events = ev\<rparr>"
  by (simp add: read_lines.simps [of acc e "\<lparr>stdin = l # rest, events = ev\<rparr>"]
                input_Cons blank_def)

lemma read_lines_eof:
  "e < 2 \<Longrightarrow>
   read_lines acc e \<lparr>stdin = [], events = ev\<rparr>
     = (Inl (EOFError (py ''EOF when reading a line'')), \<lparr>stdin = [], events = ev\<rparr>)"
  by (simp add: read_lines.simps [of acc e "\<lparr>stdin = [], events = ev\<rparr>"] input_def)

lemma read_lines_terminator:
  assumes "blank b1" and "blank b2" and "e < 2"
  shows "no_double_blank ls \<Longrightarrow> ls \<noteq> [] \<Longrightarrow> \<not> blank (last ls) \<Longrightarrow>
         (e = 1 \<longrightarrow> \<not> blank (hd ls)) \<Longrightarrow>
         read_lines acc e \<lparr>stdin = ls @ b1 # b2 # rest, events = ev\<rparr>
           = (Inr (acc @ ls @ [b1, b2]), \<lparr>stdin = rest, events = ev\<rparr>)"
  using assms(3)
proof (induction ls arbitrary: acc e)
  case Nil
  then show ?case by simp
next
  case (Cons l ls)
  show ?case
  proof (cases ls)
    case Nil
    with Cons.prems have nb: "\<not> blank l" by simp
    have "read_lines acc e \<lparr>stdin = [l] @ b1 # b2 # rest, events = ev\<rparr>
            = read_lines (acc @ [l]) 0 \<lparr>stdin = b1 # b2 # rest, events = ev\<rparr>"
      using Cons.prems(5) nb by (simp add: read_lines_step)
    also have "\<dots> = read_lines (acc @ [l, b1]) 1 \<lparr>stdin = b2 # rest, events = ev\<rparr>"
      using assms(1) by (simp add: read_lines_step)
    also have "\<dots> = read_lines (acc @ [l, b1, b2]) 2 \<lparr>stdin = rest, events = ev\<rparr>"
      using assms(2) by (simp add: read_lines_step numeral_2_eq_2)
    finally show ?thesis using Nil by (simp add: read_lines_done)
  next
    case (Cons l' ls')
    define e' :: nat where "e' = (if blank l then e + 1 else 0)"
    have step: "read_lines acc e \<lparr>stdin = (l # ls) @ b1 # b2 # rest, events = ev\<rparr>
            = read_lines (acc @ [l]) e' \<lparr>stdin = ls @ b1 # b2 # rest, events = ev\<rparr>"
      using Cons.prems(5) by (simp add: read_lines_step e'_def)
    have ndb: "no_double_blank ls" and ne: "ls \<noteq> []" and lst: "\<not> blank (last ls)"
      using Cons.prems Cons by simp_all
    have e0: "blank l \<Longrightarrow> e = 0"
      using Cons.prems(4,5) by (cases "e = 1") auto
    have small: "e' < 2"
      using e0 by (auto simp: e'_def)
    have headok: "e' = 1 \<longrightarrow> \<not> blank (hd ls)"
      using Cons.prems(1) Cons by (auto simp: e'_def split: if_splits)
    from Cons.IH [OF ndb ne lst headok small, of "acc @ [l]"] step
    show ?thesis by simp
  qed
qed

lemma pop_trailing_blank: "blank b \<Longrightarrow> pop_trailing (xs @ [b]) = pop_trailing xs"
  by (simp add: pop_trailing.simps [of "xs @ [b]"] blank_def)

lemma pop_trailing_keep: "xs = [] \<or> \<not> blank (last xs) \<Longrightarrow> pop_trailing xs = xs"
  by (auto simp: pop_trailing.simps [of xs] blank_def)

lemma set_last_join: "ls \<noteq> [] \<Longrightarrow> set (last ls) \<subseteq> set (join sep ls)"
  by (induction sep ls rule: join.induct) auto

lemma strip_join_nonempty:
  assumes "ls \<noteq> []" and "\<not> blank (last ls)"
  shows "strip (join sep ls) \<noteq> []"
proof -
  from assms(2) obtain c where "c \<in> set (last ls)" and "\<not> is_space c"
    by (auto simp: blank_def strip_empty_iff)
  with set_last_join [OF assms(1), of sep] show ?thesis
    by (auto simp: strip_empty_iff)
qed

lemma get_user_input_reads:
  assumes "no_double_blank ls" and "ls \<noteq> []" and "\<not> blank (last ls)"
    and "blank b1" and "blank b2"
  shows "get_user_input \<lparr>stdin = ls @ b1 # b2 # rest, events = ev\<rparr>
           = (Inr (strip (join [10] ls)), \<lparr>stdin = rest, events = ev @ prompt\<rparr>)"
proof -
  have rd: "read_lines [] 0 \<lparr>stdin = ls @ b1 # b2 # rest, events = ev @ prompt\<rparr>
          = (Inr ([] @ ls @ [b1, b2]), \<lparr>stdin = rest, events = ev @ prompt\<rparr>)"
    by (rule read_lines_terminator [OF assms(4,5) _ assms(1,2,3)]) simp_all
  have "pop_trailing (ls @ [b1, b2]) = pop_trailing ((ls @ [b1]) @ [b2])" by simp
  also have "\<dots> = pop_trailing (ls @ [b1])" using assms(5) by (rule pop_trailing_blank)
  also have "\<dots> = pop_trailing ls" using assms(4) by (rule pop_trailing_blank)
  also have "\<dots> = ls" using assms(3) by (simp add: pop_trailing_keep)
  finally have pop: "pop_trailing (ls @ [b1, b2]) = ls" .
  have ne: "strip (join [10] ls) \<noteq> []"
    using assms(2,3) by (rule strip_join_nonempty)
  show ?thesis
    using rd pop ne
    by (simp add: get_user_input.simps [of "\<lparr>stdin = ls @ b1 # b2 # rest, events = ev\<rparr>"]
                  print_def prompt_def Let_def)
qed

lemma get_user_input_reprompt:
  assumes "blank b1" and "blank b2"
  shows "get_user_input \<lparr>stdin = b1 # b2 # rest, events = ev\<rparr>
           = get_user_input \<lparr>stdin = rest, events = ev @ prompt @ empty_notice\<rparr>"
proof -
  have "read_lines [] 0 \<lparr>stdin = b1 # b2 # rest, events = ev @ prompt\<rparr>
          = read_lines [b1] 1 \<lparr>stdin = b2 # rest, events = ev @ prompt\<rparr>"
    using assms(1) by (simp add: read_lines_step)
  also have "\<dots> = read_lines [b1, b2] 2 \<lparr>stdin = rest, events = ev @ prompt\<rparr>"
    using assms(2) by (simp add: read_lines_step numeral_2_eq_2)
  finally have rd: "read_lines [] 0 \<lparr>stdin = b1 # b2 # rest, events = ev @ prompt\<rparr>
          = (Inr [b1, b2], \<lparr>stdin = rest, events = ev @ prompt\<rparr>)"
    by (simp add: read_lines_done)
  have "pop_trailing [b1, b2] = pop_trailing ([b1] @ [b2])" by simp
  also have "\<dots> = pop_trailing ([] @ [b1])" using assms(2) by (simp only: pop_trailing_blank append_Nil)
  also have "\<dots> = pop_trailing []" using assms(1) by (rule pop_trailing_blank)
  also have "\<dots> = []" by (simp add: pop_trailing_keep)
  finally have pop: "pop_trailing [b1, b2] = []" .
  have st: "strip [] = []" by (simp add: strip_def)
  show ?thesis
    using rd pop st
    by (simp add: get_user_input.simps [of "\<lparr>stdin = b1 # b2 # rest, events = ev\<rparr>"]
                  print_def prompt_def empty_notice_def Let_def)
qed

lemma get_user_input_eof:
  "get_user_input \<lparr>stdin = [], events = ev\<rparr>
     = (Inl (EOFError (py ''EOF when reading a line'')), \<lparr>stdin = [], events = ev @ prompt\<rparr>)"
proof -
  have "read_lines [] 0 \<lparr>stdin = [], events = ev @ prompt\<rparr>
     = (Inl (EOFError (py ''EOF when reading a line'')), \<lparr>stdin = [], events = ev @ prompt\<rparr>)"
    by (simp add: read_lines_eof)
  then show ?thesis
    by (simp add: get_user_input.simps [of "\<lparr>stdin = [], events = ev\<rparr>"]
                  print_def prompt_def Let_def)
qed

lemma blank_Nil: "blank []"
  by (simp add: blank_def strip_def)

lemma strip_hello: "strip (py ''hello'') = py ''hello''"
  by (simp add: strip_def py_def is_space_def)



text \<open>
  Claim C8.  \<open>get_user_input\<close> reads lines until two blank lines in a row have been read, drops
  the trailing blank lines and joins the rest with newlines: for lines \<open>ls\<close> that end with a
  line that is not blank and have no two blank lines in a row, followed by two blank lines,
  it returns the stripped join of \<open>ls\<close> and leaves the remaining input unread.  On the input
  \<open>hello\<close>, empty line, empty line it returns \<open>hello\<close>.  When the input starts with two empty
  lines it does not return an empty description: it prints the notice and starts again with
  the prompt on the remaining input (on the input of just two empty lines this second
  round meets the end of the input, and \<open>input()\<close> raises \<open>EOFError\<close>).
\<close>

theorem get_user_input_collects:
  "(no_double_blank ls \<and> ls \<noteq> [] \<and> \<not> blank (last ls) \<and> blank b1 \<and> blank b2 \<longrightarrow>
      get_user_input \<lparr>stdin = ls @ b1 # b2 # rest, events = ev\<rparr>
        = (Inr (strip (join [10] ls)), \<lparr>stdin = rest, events = ev @ prompt\<rparr>))
   \<and> get_user_input \<lparr>stdin = [py ''hello'', [], []], events = []\<rparr>
        = (Inr (py ''hello''), \<lparr>stdin = [], events = prompt\<rparr>)
   \<and> get_user_input \<lparr>stdin = [] # [] # rest, events = ev\<rparr>
        = get_user_input \<lparr>stdin = rest, events = ev @ prompt @ empty_notice\<rparr>
   \<and> get_user_input \<lparr>stdin = [[], []], events = []\<rparr>
        = (Inl (EOFError (py ''EOF when reading a line'')),
           \<lparr>stdin = [], events = prompt @ empty_notice @ prompt\<rparr>)"
proof (intro conjI impI)
  assume "no_double_blank ls \<and> ls \<noteq> [] \<and> \<not> blank (last ls) \<and> blank b1 \<and> blank b2"
  then show "get_user_input \<lparr>stdin = ls @ b1 # b2 # rest, events = ev\<rparr>
        = (Inr (strip (join [10] ls)), \<lparr>stdin = rest, events = ev @ prompt\<rparr>)"
    by (simp add: get_user_input_reads)
next
  have "\<not> blank (py ''hello'')"
    by (simp add: blank_def strip_hello) (simp add: py_def)
  then have "get_user_input \<lparr>stdin = [py ''hello''] @ [] # [] # [], events = []\<rparr>
        = (Inr (strip (join [10] [py ''hello''])), \<lparr>stdin = [], events = [] @ prompt\<rparr>)"
    by (intro get_user_input_reads) (simp_all add: blank_Nil)
  then show "get_user_input \<lparr>stdin = [py ''hello'', [], []], events = []\<rparr>
        = (Inr (py ''hello''), \<lparr>stdin = [], events = prompt\<rparr>)"
    by (simp add: strip_hello)
next
  show "get_user_input \<lparr>stdin = [] # [] # rest, events = ev\<rparr>
        = get_user_input \<lparr>stdin = rest, events = ev @ prompt @ empty_notice\<rparr>"
    by (rule get_user_input_reprompt) (rule blank_Nil)+
next
  have "get_user_input \<lparr>stdin = [] # [] # [], events = []\<rparr>
        = get_user_input \<lparr>stdin = [], events = [] @ prompt @ empty_notice\<rparr>"
    by (rule get_user_input_reprompt) (rule blank_Nil)+
  then show "get_user_input \<lparr>stdin = [[], []], events = []\<rparr>
        = (Inl (EOFError (py ''EOF when reading a line'')),
           \<lparr>stdin = [], events = prompt @ empty_notice @ prompt\<rparr>)"
    by (simp add: get_user_input_eof)
qed

theorem get_user_input_collects_witness:
  "get_user_input
     \<lparr>stdin = [py ''a kettle'', [], py ''that whistles'', [], [], py ''unread''], events = []\<rparr>
   = (Inr (py ''a kettle'' @ [10, 10] @ py ''that whistles''),
      \<lparr>stdin = [py ''unread''], events = prompt\<rparr>)"
proof -
  let ?ls = "[py ''a kettle'', [], py ''that whistles'']"
  have k: "\<not> blank (py ''a kettle'')"
    by (simp add: blank_def strip_def py_def is_space_def)
  have t: "\<not> blank (py ''that whistles'')"
    by (simp add: blank_def strip_def py_def is_space_def)
  have h: "no_double_blank ?ls \<and> ?ls \<noteq> [] \<and> \<not> blank (last ?ls) \<and> blank [] \<and> blank []"
    using k t by (simp add: blank_Nil)
  have j: "strip (join [10] ?ls) = py ''a kettle'' @ [10, 10] @ py ''that whistles''"
    by (simp add: strip_def py_def is_space_def)
  from h get_user_input_collects [of ?ls "[]" "[]" "[py ''unread'']" "[]"]
  have "get_user_input \<lparr>stdin = ?ls @ [] # [] # [py ''unread''], events = []\<rparr>
          = (Inr (strip (join [10] ?ls)), \<lparr>stdin = [py ''unread''], events = [] @ prompt\<rparr>)"
    by blast
  with j show ?thesis by simp
qed

text \<open>
  Claim C10.  A string that \<open>get_user_input\<close> returns is not empty and is its own stripped
  form.  The strip applies to the whole joined description, at both ends, and a line of
  whitespace only counts as blank for the terminator: a line \<open>d\<close> that is not blank, followed
  by two lines of whitespace only, yields \<open>strip d\<close>.
\<close>

theorem get_user_input_result_stripped:
  "(get_user_input w = (Inr s, w') \<longrightarrow> s \<noteq> [] \<and> strip s = s)
   \<and> (\<not> blank d \<and> blank b1 \<and> blank b2 \<longrightarrow>
        get_user_input \<lparr>stdin = d # b1 # b2 # rest, events = ev\<rparr>
          = (Inr (strip d), \<lparr>stdin = rest, events = ev @ prompt\<rparr>))"
proof -
  have "get_user_input w = (Inr s, w') \<Longrightarrow> s \<noteq> [] \<and> strip s = s"
    by (rule get_user_input_stripped)
  moreover have "\<not> blank d \<and> blank b1 \<and> blank b2 \<Longrightarrow>
        get_user_input \<lparr>stdin = d # b1 # b2 # rest, events = ev\<rparr>
          = (Inr (strip d), \<lparr>stdin = rest, events = ev @ prompt\<rparr>)"
  proof -
    assume a: "\<not> blank d \<and> blank b1 \<and> blank b2"
    then have "get_user_input \<lparr>stdin = [d] @ b1 # b2 # rest, events = ev\<rparr>
          = (Inr (strip (join [10] [d])), \<lparr>stdin = rest, events = ev @ prompt\<rparr>)"
      by (intro get_user_input_reads) simp_all
    then show ?thesis by simp
  qed
  ultimately show ?thesis by blast
qed

theorem get_user_input_result_stripped_witness:
  "get_user_input \<lparr>stdin = [py ''  a widget '', py '' '', [9, 0xA0]], events = []\<rparr>
     = (Inr (py ''a widget''), \<lparr>stdin = [], events = prompt\<rparr>)
   \<and> py ''a widget'' \<noteq> [] \<and> strip (py ''a widget'') = py ''a widget''"
proof -
  have d: "\<not> blank (py ''  a widget '')"
    by (simp add: blank_def strip_def py_def is_space_def)
  have b1: "blank (py '' '')"
    by (simp add: blank_def strip_def py_def is_space_def)
  have b2: "blank [9, 0xA0]"
    by (simp add: blank_def strip_def is_space_def)
  have s: "strip (py ''  a widget '') = py ''a widget''"
    by (simp add: strip_def py_def is_space_def)
  from d b1 b2
    get_user_input_result_stripped
      [of "\<lparr>stdin = [py ''  a widget '', py '' '', [9, 0xA0]], events = []\<rparr>"
          "py ''a widget''" "\<lparr>stdin = [], events = prompt\<rparr>"
          "py ''  a widget ''" "py '' ''" "[9, 0xA0]" "[]" "[]"]
  show ?thesis by (simp add: s)
qed

section \<open>Lines of the formatted results\<close>

lemma split_lines_nonempty: "split_lines s \<noteq> []"
  by (induction s) (auto split: list.splits)

lemma split_lines_single: "single_line s \<Longrightarrow> split_lines s = [s]"
  by (induction s) (auto simp: single_line_def)

lemma split_lines_append_nl: "split_lines (a @ 10 # b) = split_lines a @ split_lines b"
proof (induction a)
  case Nil
  show ?case by simp
next
  case (Cons c a)
  obtain l ls where "split_lines a = l # ls"
    using split_lines_nonempty [of a] by (cases "split_lines a") auto
  with Cons show ?case by simp
qed

lemma split_lines_join:
  "ps \<noteq> [] \<Longrightarrow> split_lines (join [10] ps) = concat (map split_lines ps)"
proof (induction "[10::nat]" ps rule: join.induct)
  case 1
  then show ?case by simp
next
  case (2 x)
  show ?case by simp
next
  case (3 x y ys)
  then show ?case by (simp add: split_lines_append_nl)
qed

lemma format_loop_blocks:
  "list_all is_dict ps \<Longrightarrow> format_loop render i ps acc = Inr (acc @ blocks render i ps)"
proof (induction ps arbitrary: i acc)
  case Nil
  show ?case by simp
next
  case (Cons p ps)
  then obtain d where "p = PDict d" by (cases p) auto
  with Cons show ?case by (simp add: format_patent_def)
qed

lemma search_patents_formatted:
  assumes "search (params query) = Inr results"
    and "map_of results (py ''error'') = None"
    and "map_of results (py ''organic_results'') = Some (PList ps)"
    and "ps \<noteq> []" and "list_all is_dict ps"
  shows "search_patents search render query
           = join [10] (header query # replicate 50 61 # blocks render 1 ps)"
  using assms
  by (simp add: search_patents_def search_patents_try_def dict_get_def header_def
                format_loop_blocks)

lemma output_lines:
  assumes "search (params query) = Inr results"
    and "map_of results (py ''error'') = None"
    and "map_of results (py ''organic_results'') = Some (PList ps)"
    and "ps \<noteq> []" and "list_all is_dict ps"
  shows "split_lines (search_patents search render query)
           = split_lines (header query) @ [replicate 50 61]
             @ concat (map split_lines (blocks render 1 ps))"
proof -
  have "single_line (replicate 50 (61::nat))" by (simp add: single_line_def)
  then have r: "split_lines (replicate 50 (61::nat)) = [replicate 50 61]"
    by (rule split_lines_single)
  have "search_patents search render query
           = join [10] (header query # replicate 50 61 # blocks render 1 ps)"
    using assms by (rule search_patents_formatted)
  then have "split_lines (search_patents search render query)
           = concat (map split_lines (header query # replicate 50 61 # blocks render 1 ps))"
    by (simp only: split_lines_join list.distinct not_False_eq_True)
  with r show ?thesis by simp
qed

lemma well_formed_is_dict: "well_formed_record p \<Longrightarrow> is_dict p"
  by (cases p) auto

lemma well_formed_all_dicts: "list_all well_formed_record ps \<Longrightarrow> list_all is_dict ps"
  by (induction ps) (auto simp: well_formed_is_dict)

subsection \<open>Recognising the lines\<close>

lemma dec_nonempty: "dec n \<noteq> []"
  by (subst dec.simps) simp

lemma dec_digits: "c \<in> set (dec n) \<Longrightarrow> is_digit c"
proof (induction n arbitrary: c rule: dec.induct)
  case (1 n)
  show ?case
  proof (cases "n < 10")
    case True
    with "1.prems" show ?thesis
      by (subst (asm) dec.simps) (simp add: is_digit_def)
  next
    case False
    with "1.prems" have "c \<in> set (dec (n div 10)) \<or> c = 48 + n mod 10"
      by (subst (asm) dec.simps) auto
    then show ?thesis
    proof
      assume "c \<in> set (dec (n div 10))"
      with "1.IH" False show ?thesis by simp
    next
      assume "c = 48 + n mod 10"
      moreover have "n mod 10 < 10" by simp
      ultimately show ?thesis unfolding is_digit_def by linarith
    qed
  qed
qed

lemma dec_single_line: "single_line (dec n)"
  using dec_digits [of 10 n] by (auto simp: single_line_def is_digit_def)

lemma numbered_entry_dec: "is_numbered_entry (dec i @ py ''. '' @ t)"
proof -
  have dot: "py ''. '' @ t = 46 # 32 # t" by (simp add: py_def)
  have nd: "\<not> is_digit 46" by (simp add: is_digit_def)
  have "takeWhile is_digit (dec i @ 46 # 32 # t) = dec i"
    using dec_digits nd by (simp add: takeWhile_append2)
  moreover have "dropWhile is_digit (dec i @ 46 # 32 # t) = 46 # 32 # t"
    using dec_digits nd by (simp add: dropWhile_append2)
  ultimately show ?thesis
    by (simp add: is_numbered_entry_def dot dec_nonempty) (simp add: py_def)
qed

lemma not_numbered_head: "\<not> is_digit c \<Longrightarrow> \<not> is_numbered_entry (c # r)"
  by (simp add: is_numbered_entry_def)

lemma not_numbered_Nil: "\<not> is_numbered_entry []"
  by (simp add: is_numbered_entry_def)

lemma replicate_pos: "0 < n \<Longrightarrow> replicate n x = x # replicate (n - 1) x"
  by (cases n) simp_all

lemma rule_head: "is_separator_rule l \<Longrightarrow> \<exists>r. l = 61 # r \<or> l = 45 # r"
  unfolding is_separator_rule_def
  using replicate_pos [of 50 "61::nat"] replicate_pos [of 40 "45::nat"] by auto

lemma not_rule_head: "c \<noteq> 61 \<Longrightarrow> c \<noteq> 45 \<Longrightarrow> \<not> is_separator_rule (c # r)"
  using rule_head [of "c # r"] by auto

lemma not_rule_Nil: "\<not> is_separator_rule []"
  using rule_head [of "[]"] by auto

lemma not_rule_dec: "\<not> is_separator_rule (dec i @ r)"
proof
  assume "is_separator_rule (dec i @ r)"
  then obtain r' where a: "dec i @ r = 61 # r' \<or> dec i @ r = 45 # r'"
    using rule_head by blast
  obtain c cs where d: "dec i = c # cs"
    using dec_nonempty [of i] by (cases "dec i") auto
  then have "is_digit c" using dec_digits [of c i] by simp
  with a d show False by (auto simp: is_digit_def)
qed

lemma rule_dashes: "is_separator_rule (replicate 40 45)"
  by (simp add: is_separator_rule_def)

lemma rule_equals: "is_separator_rule (replicate 50 61)"
  by (simp add: is_separator_rule_def)

lemma not_numbered_dashes: "\<not> is_numbered_entry (replicate 40 45)"
  using replicate_pos [of 40 "45::nat"] by (simp add: not_numbered_head is_digit_def)

lemma not_numbered_equals: "\<not> is_numbered_entry (replicate 50 61)"
  using replicate_pos [of 50 "61::nat"] by (simp add: not_numbered_head is_digit_def)

lemma header_head: "header query = 80 # tl (header query)"
  by (simp add: header_def py_def)

lemma not_numbered_header: "\<not> is_numbered_entry (header query)"
  by (subst header_head) (simp add: not_numbered_head is_digit_def)

lemma not_rule_header: "\<not> is_separator_rule (header query)"
  by (subst header_head) (simp add: not_rule_head)

lemma single_line_header: "single_line query \<Longrightarrow> single_line (header query)"
  by (simp add: single_line_def header_def py_def)


subsection \<open>The lines of one entry\<close>

lemma single_line_append: "single_line a \<Longrightarrow> single_line b \<Longrightarrow> single_line (a @ b)"
  by (simp add: single_line_def)

lemma field_single:
  assumes "text_field (map_of d k)" and "single_line dflt"
  shows "single_line (py_format render (dict_get d k (PStr dflt)))"
proof (cases "map_of d k")
  case None
  with assms(2) show ?thesis by (simp add: dict_get_def)
next
  case (Some v)
  with assms(1) show ?thesis by (cases v) (simp_all add: dict_get_def)
qed

lemma defaults_single:
  "single_line (py ''No title available'')"
  "single_line (py ''No description available'')"
  "single_line (py ''No patent ID'')"
  "single_line (py ''Unknown inventor'')"
  "single_line (py ''Unknown assignee'')"
  "single_line (py ''Unknown date'')"
  by (simp_all add: single_line_def py_def)

lemma labels_single:
  "single_line (py ''. '')"
  "single_line (py ''   Patent ID: '')"
  "single_line (py ''   Inventor: '')"
  "single_line (py ''   Assignee: '')"
  "single_line (py ''   Publication Date: '')"
  "single_line (py ''   Description: '')"
  by (simp_all add: single_line_def py_def)

lemma labels_head:
  "py ''   Patent ID: '' @ t = 32 # tl (py ''   Patent ID: '') @ t"
  "py ''   Inventor: '' @ t = 32 # tl (py ''   Inventor: '') @ t"
  "py ''   Assignee: '' @ t = 32 # tl (py ''   Assignee: '') @ t"
  "py ''   Publication Date: '' @ t = 32 # tl (py ''   Publication Date: '') @ t"
  "py ''   Description: '' @ t = 32 # tl (py ''   Description: '') @ t"
  by (simp_all add: py_def)

lemma labelled_line:
  "single_line l \<Longrightarrow> single_line t \<Longrightarrow> split_lines (l @ t) = [l @ t]"
  by (rule split_lines_single) (rule single_line_append)

lemma numbered_line:
  assumes "single_line t"
  shows "split_lines (10 # dec i @ py ''. '' @ t) = [[], dec i @ py ''. '' @ t]"
proof -
  have "single_line (dec i @ py ''. '' @ t)"
    by (intro single_line_append dec_single_line labels_single assms)
  then have "split_lines (dec i @ py ''. '' @ t) = [dec i @ py ''. '' @ t]"
    by (rule split_lines_single)
  then show ?thesis by simp
qed

lemma well_formed_fields:
  assumes "well_formed_record (PDict d)"
  shows "text_field (map_of d (py ''title''))"
    and "text_field (map_of d (py ''snippet''))"
    and "text_field (map_of d (py ''patent_id''))"
    and "text_field (map_of d (py ''inventor''))"
    and "text_field (map_of d (py ''assignee''))"
    and "text_field (map_of d (py ''publication_date''))"
  using assms by (simp_all add: field_names_def)

lemma entry_block_lines:
  assumes "well_formed_record (PDict d)"
  shows "\<exists>t a b c e f.
           concat (map split_lines (entry_block render i d))
             = [[], dec i @ py ''. '' @ t, 32 # a, 32 # b, 32 # c, 32 # e, 32 # f,
                replicate 40 45]"
proof -
  define title where
    "title = py_format render (dict_get d (py ''title'') (PStr (py ''No title available'')))"
  define snippet where
    "snippet = py_format render
       (dict_get d (py ''snippet'') (PStr (py ''No description available'')))"
  define patent_id where
    "patent_id = py_format render (dict_get d (py ''patent_id'') (PStr (py ''No patent ID'')))"
  define inventor where
    "inventor = py_format render (dict_get d (py ''inventor'') (PStr (py ''Unknown inventor'')))"
  define assignee where
    "assignee = py_format render (dict_get d (py ''assignee'') (PStr (py ''Unknown assignee'')))"
  define publication_date where
    "publication_date = py_format render
       (dict_get d (py ''publication_date'') (PStr (py ''Unknown date'')))"
  note wf = well_formed_fields [OF assms]
  have s: "single_line title" "single_line snippet" "single_line patent_id"
    "single_line inventor" "single_line assignee" "single_line publication_date"
    unfolding title_def snippet_def patent_id_def inventor_def assignee_def
      publication_date_def
    by (intro field_single wf defaults_single)+
  have blk: "entry_block render i d
      = [[10] @ dec i @ py ''. '' @ title,
         py ''   Patent ID: '' @ patent_id,
         py ''   Inventor: '' @ inventor,
         py ''   Assignee: '' @ assignee,
         py ''   Publication Date: '' @ publication_date,
         py ''   Description: '' @ snippet,
         replicate 40 45]"
    by (simp add: entry_block_def Let_def title_def snippet_def patent_id_def inventor_def
                  assignee_def publication_date_def)
  have dashes: "split_lines (replicate 40 (45::nat)) = [replicate 40 45]"
    by (rule split_lines_single) (simp add: single_line_def)
  have "concat (map split_lines (entry_block render i d))
      = [[], dec i @ py ''. '' @ title,
         py ''   Patent ID: '' @ patent_id,
         py ''   Inventor: '' @ inventor,
         py ''   Assignee: '' @ assignee,
         py ''   Publication Date: '' @ publication_date,
         py ''   Description: '' @ snippet,
         replicate 40 45]"
    unfolding blk
    by (simp only: list.map concat.simps numbered_line [OF s(1)] dashes
                   labelled_line [OF labels_single(2) s(3)]
                   labelled_line [OF labels_single(3) s(4)]
                   labelled_line [OF labels_single(4) s(5)]
                   labelled_line [OF labels_single(5) s(6)]
                   labelled_line [OF labels_single(6) s(2)]
                   append.simps)
  then have "concat (map split_lines (entry_block render i d))
      = [[], dec i @ py ''. '' @ title,
         32 # tl (py ''   Patent ID: '') @ patent_id,
         32 # tl (py ''   Inventor: '') @ inventor,
         32 # tl (py ''   Assignee: '') @ assignee,
         32 # tl (py ''   Publication Date: '') @ publication_date,
         32 # tl (py ''   Description: '') @ snippet,
         replicate 40 45]"
    by (simp only: labels_head)
  then show ?thesis by blast
qed

lemma indented_line: "\<not> is_numbered_entry (32 # r)" "\<not> is_separator_rule (32 # r)"
  by (simp_all add: not_numbered_head not_rule_head is_digit_def)

lemma entry_block_counts:
  assumes "well_formed_record (PDict d)"
  shows "length (filter is_numbered_entry (concat (map split_lines (entry_block render i d)))) = 1"
    and "length (filter is_separator_rule (concat (map split_lines (entry_block render i d)))) = 1"
proof -
  from entry_block_lines [OF assms, of render i] obtain t a b c e f where
    l: "concat (map split_lines (entry_block render i d))
          = [[], dec i @ py ''. '' @ t, 32 # a, 32 # b, 32 # c, 32 # e, 32 # f, replicate 40 45]"
    by blast
  show "length (filter is_numbered_entry (concat (map split_lines (entry_block render i d)))) = 1"
    unfolding l
    by (simp add: not_numbered_Nil numbered_entry_dec indented_line not_numbered_dashes)
  show "length (filter is_separator_rule (concat (map split_lines (entry_block render i d)))) = 1"
    unfolding l
    by (simp add: not_rule_Nil not_rule_dec indented_line rule_dashes)
qed

lemma blocks_counts:
  "list_all well_formed_record ps \<Longrightarrow>
   length (filter is_numbered_entry (concat (map split_lines (blocks render i ps)))) = length ps
   \<and> length (filter is_separator_rule (concat (map split_lines (blocks render i ps)))) = length ps"
proof (induction ps arbitrary: i)
  case Nil
  show ?case by simp
next
  case (Cons p ps)
  then obtain d where p: "p = PDict d" by (cases p) auto
  with Cons.prems have wf: "well_formed_record (PDict d)" and rest: "list_all well_formed_record ps"
    by simp_all
  from Cons.IH [OF rest, of "Suc i"] entry_block_counts [OF wf, of render i]
  show ?case by (simp add: p)
qed

lemma formatted_counts:
  assumes "search (params query) = Inr results"
    and "well_formed_response results ps"
    and "ps \<noteq> []" and "single_line query"
  shows "numbered_entries (search_patents search render query) = length ps"
    and "separator_rules (search_patents search render query) = length ps + 1"
    and "hd (split_lines (search_patents search render query)) = header query"
proof -
  from assms(2) have e: "map_of results (py ''error'') = None"
    and o: "map_of results (py ''organic_results'') = Some (PList ps)"
    and wf: "list_all well_formed_record ps"
    by (simp_all add: well_formed_response_def)
  have h: "split_lines (header query) = [header query]"
    using assms(4) by (intro split_lines_single single_line_header)
  have "split_lines (search_patents search render query)
           = split_lines (header query) @ [replicate 50 61]
             @ concat (map split_lines (blocks render 1 ps))"
    using assms(1) e o assms(3) well_formed_all_dicts [OF wf] by (rule output_lines)
  with h have lines: "split_lines (search_patents search render query)
           = [header query] @ [replicate 50 61]
             @ concat (map split_lines (blocks render 1 ps))"
    by simp
  note c = blocks_counts [OF wf, of render 1]
  show "numbered_entries (search_patents search render query) = length ps"
    unfolding numbered_entries_def lines
    using c by (simp add: not_numbered_header not_numbered_equals)
  show "separator_rules (search_patents search render query) = length ps + 1"
    unfolding separator_rules_def lines
    using c by (simp add: not_rule_header rule_equals)
  show "hd (split_lines (search_patents search render query)) = header query"
    unfolding lines by simp
qed

lemma no_results_counts:
  assumes "search (params query) = Inr results"
    and "well_formed_response results []"
    and "single_line query"
  shows "numbered_entries (search_patents search render query) = 0"
    and "separator_rules (search_patents search render query) = 0"
proof -
  let ?m = "py ''No patents found for query: '' @ [39] @ query @ [39]"
  have out: "search_patents search render query = ?m"
    using assms(1,2)
    by (simp add: well_formed_response_def search_patents_def search_patents_try_def
                  dict_get_def)
  have "single_line ?m" using assms(3) by (simp add: single_line_def py_def)
  then have l: "split_lines ?m = [?m]" by (rule split_lines_single)
  have hd: "?m = 78 # tl ?m" by (simp add: py_def)
  have "\<not> is_numbered_entry ?m"
    by (subst hd) (simp add: not_numbered_head is_digit_def)
  then show "numbered_entries (search_patents search render query) = 0"
    unfolding numbered_entries_def out l by simp
  have "\<not> is_separator_rule ?m"
    by (subst hd) (simp add: not_rule_head)
  then show "separator_rules (search_patents search render query) = 0"
    unfolding separator_rules_def out l by simp
qed



subsection \<open>Entries, rules and the header\<close>

text \<open>
  Claim C1, as amended.  For a well-formed response with \<open>N \<ge> 1\<close> records and a one-line
  query, the string returned by \<open>search_patents\<close> has exactly \<open>N\<close> numbered entries and
  \<open>N + 1\<close> separator rules (the rule under the header and one rule after each entry), and
  its first line is \<open>Patent Search Results for: '<query>'\<close>.
\<close>

theorem search_patents_entries_and_rules:
  assumes "search (params query) = Inr results"
    and "well_formed_response results ps"
    and "single_line query"
    and "ps \<noteq> []"
  shows "numbered_entries (search_patents search render query) = length ps
       \<and> separator_rules (search_patents search render query) = length ps + 1
       \<and> hd (split_lines (search_patents search render query))
           = py ''Patent Search Results for: '' @ [39] @ query @ [39]"
  using assms formatted_counts [of search query results ps render] by (simp add: header_def)

theorem search_patents_entries_and_rules_witness:
  "numbered_entries
     (search_patents
        (answering [(py ''organic_results'',
                     PList [PDict [(py ''title'', PStr (py ''Kettle''))], PDict [],
                            PDict [(py ''inventor'', PStr (py ''A. Watt''))]])])
        no_render (py ''kettle'')) = 3
   \<and> separator_rules
     (search_patents
        (answering [(py ''organic_results'',
                     PList [PDict [(py ''title'', PStr (py ''Kettle''))], PDict [],
                            PDict [(py ''inventor'', PStr (py ''A. Watt''))]])])
        no_render (py ''kettle'')) = 4"
proof -
  let ?ps = "[PDict [(py ''title'', PStr (py ''Kettle''))], PDict [],
              PDict [(py ''inventor'', PStr (py ''A. Watt''))]]"
  let ?r = "[(py ''organic_results'', PList ?ps)]"
  have a: "answering ?r (params (py ''kettle'')) = Inr ?r"
    by (simp add: answering_def)
  have w: "well_formed_response ?r ?ps"
    by (simp add: well_formed_response_def field_names_def py_def single_line_def)
  have q: "single_line (py ''kettle'')"
    by (simp add: single_line_def py_def)
  have n: "?ps \<noteq> []" by simp
  from a w q n
    search_patents_entries_and_rules [of "answering ?r" "py ''kettle''" ?r ?ps no_render]
  show ?thesis by simp
qed

text \<open>
  The claim as stated asks for \<open>2 \<times> N\<close> separator rules; a well-formed response with two
  records gives three.
\<close>

theorem search_patents_rules_counterexample:
  "well_formed_response [(py ''organic_results'', PList [PDict [], PDict []])]
     [PDict [], PDict []]
   \<and> length [PDict [], PDict []] \<le> 10
   \<and> separator_rules
        (search_patents (answering [(py ''organic_results'', PList [PDict [], PDict []])])
           no_render (py ''drone''))
       \<noteq> 2 * length [PDict [], PDict []]"
proof -
  let ?ps = "[PDict [], PDict []]"
  let ?r = "[(py ''organic_results'', PList ?ps)]"
  have a: "answering ?r (params (py ''drone'')) = Inr ?r"
    by (simp add: answering_def)
  have w: "well_formed_response ?r ?ps"
    by (simp add: well_formed_response_def field_names_def py_def)
  have q: "single_line (py ''drone'')"
    by (simp add: single_line_def py_def)
  have "separator_rules (search_patents (answering ?r) no_render (py ''drone''))
          = length ?ps + 1"
    using a w _ q by (rule formatted_counts(2)) simp
  with w show ?thesis by simp
qed

text \<open>
  Claim C2, as amended.  \<open>search_patents\<close> asks the backend for ten results (\<open>num = 10\<close>) and
  renders every record it receives; it does not cut the list.  For a well-formed response
  with \<open>N\<close> records and a one-line query the output has exactly \<open>N\<close> numbered entries, so at
  most ten when the response has at most ten records.
\<close>

theorem search_patents_entries_follow_response:
  assumes "search (params query) = Inr results"
    and "well_formed_response results ps"
    and "single_line query"
  shows "numbered_entries (search_patents search render query) = length ps
       \<and> (length ps \<le> 10 \<longrightarrow> numbered_entries (search_patents search render query) \<le> 10)
       \<and> map_of (params query) (py ''num'') = Some (PInt 10)"
proof -
  have "numbered_entries (search_patents search render query) = length ps"
  proof (cases "ps = []")
    case True
    with assms no_results_counts(1) [of search query results render] show ?thesis by simp
  next
    case False
    with assms(1,2) show ?thesis using assms(3) by (rule formatted_counts(1))
  qed
  moreover have "map_of (params query) (py ''num'') = Some (PInt 10)"
    by (simp add: params_def py_def)
  ultimately show ?thesis by simp
qed

theorem search_patents_entries_follow_response_witness:
  "numbered_entries
     (search_patents
        (answering [(py ''organic_results'',
                     PList [PDict [(py ''title'', PStr (py ''Kettle''))],
                            PDict [(py ''snippet'', PStr (py ''It whistles.''))]])])
        no_render (py ''kettle'')) = 2"
proof -
  let ?ps = "[PDict [(py ''title'', PStr (py ''Kettle''))],
              PDict [(py ''snippet'', PStr (py ''It whistles.''))]]"
  let ?r = "[(py ''organic_results'', PList ?ps)]"
  have a: "answering ?r (params (py ''kettle'')) = Inr ?r"
    by (simp add: answering_def)
  have w: "well_formed_response ?r ?ps"
    by (simp add: well_formed_response_def field_names_def py_def single_line_def)
  have q: "single_line (py ''kettle'')"
    by (simp add: single_line_def py_def)
  from a w q
    search_patents_entries_follow_response [of "answering ?r" "py ''kettle''" ?r ?ps no_render]
  show ?thesis by simp
qed

text \<open>
  The claim as stated promises at most ten entries for every response; a backend that
  returns eleven records gets eleven entries.
\<close>

theorem search_patents_cap_counterexample:
  "well_formed_response [(py ''organic_results'', PList (replicate 11 (PDict [])))]
     (replicate 11 (PDict []))
   \<and> \<not> numbered_entries
          (search_patents (answering [(py ''organic_results'', PList (replicate 11 (PDict [])))])
             no_render (py ''drone''))
        \<le> 10"
proof -
  let ?ps = "replicate 11 (PDict [])"
  let ?r = "[(py ''organic_results'', PList ?ps)]"
  have a: "answering ?r (params (py ''drone'')) = Inr ?r"
    by (simp add: answering_def)
  have "list_all well_formed_record ?ps"
    by (simp add: list_all_iff field_names_def)
  then have w: "well_formed_response ?r ?ps"
    by (simp add: well_formed_response_def py_def)
  have q: "single_line (py ''drone'')"
    by (simp add: single_line_def py_def)
  have "numbered_entries (search_patents (answering ?r) no_render (py ''drone''))
          = length ?ps"
    using a w _ q by (rule formatted_counts(1)) simp
  with w show ?thesis by simp
qed

subsection \<open>Placeholders\<close>

lemma entry_block_in_blocks:
  "k < length ps \<Longrightarrow> list_all is_dict ps \<Longrightarrow> ps ! k = PDict d \<Longrightarrow>
   set (entry_block render (i + k) d) \<subseteq> set (blocks render i ps)"
proof (induction ps arbitrary: i k)
  case Nil
  then show ?case by simp
next
  case (Cons p ps)
  then obtain d' where p: "p = PDict d'" by (cases p) auto
  show ?case
  proof (cases k)
    case 0
    with Cons.prems p show ?thesis by simp
  next
    case (Suc j)
    with Cons.prems have "j < length ps" "list_all is_dict ps" "ps ! j = PDict d"
      by simp_all
    from Cons.IH [OF this, of "Suc i"] Suc p show ?thesis by auto
  qed
qed

lemma line_of_piece:
  "piece \<in> set pieces \<Longrightarrow> l \<in> set (split_lines piece) \<Longrightarrow>
   l \<in> set (concat (map split_lines pieces))"
  by auto

lemma block_lines_in_output:
  assumes "search (params query) = Inr results"
    and "map_of results (py ''error'') = None"
    and "map_of results (py ''organic_results'') = Some (PList ps)"
    and "list_all is_dict ps" and "k < length ps" and "ps ! k = PDict d"
  shows "set (concat (map split_lines (entry_block render (Suc k) d)))
           \<subseteq> set (split_lines (search_patents search render query))"
proof -
  from assms(5) have ne: "ps \<noteq> []" by auto
  have lines: "split_lines (search_patents search render query)
           = split_lines (header query) @ [replicate 50 61]
             @ concat (map split_lines (blocks render 1 ps))"
    using assms(1,2,3) ne assms(4) by (rule output_lines)
  have "set (entry_block render (1 + k) d) \<subseteq> set (blocks render 1 ps)"
    using assms(5,4,6) by (rule entry_block_in_blocks)
  then have "set (concat (map split_lines (entry_block render (Suc k) d)))
           \<subseteq> set (concat (map split_lines (blocks render 1 ps)))"
    by auto
  with lines show ?thesis by auto
qed

lemma placeholder_title:
  assumes "map_of d (py ''title'') = None"
  shows "dec i @ py ''. No title available''
           \<in> set (concat (map split_lines (entry_block render i d)))"
proof -
  let ?piece = "[10] @ dec i @ py ''. '' @ py ''No title available''"
  have "?piece \<in> set (entry_block render i d)"
    using assms by (simp add: entry_block_def Let_def dict_get_def)
  moreover have "dec i @ py ''. '' @ py ''No title available'' \<in> set (split_lines ?piece)"
    using numbered_line [OF defaults_single(1), of i] by simp
  ultimately have "dec i @ py ''. '' @ py ''No title available''
           \<in> set (concat (map split_lines (entry_block render i d)))"
    by (rule line_of_piece)
  moreover have "py ''. '' @ py ''No title available'' = py ''. No title available''"
    by (simp add: py_def)
  ultimately show ?thesis by simp
qed

lemma placeholder_line:
  assumes "label @ dflt \<in> set (entry_block render i d)"
    and "single_line label" and "single_line dflt"
  shows "label @ dflt \<in> set (concat (map split_lines (entry_block render i d)))"
proof -
  have "split_lines (label @ dflt) = [label @ dflt]"
    using assms(2,3) by (rule labelled_line)
  then have "label @ dflt \<in> set (split_lines (label @ dflt))" by simp
  with assms(1) show ?thesis by (rule line_of_piece)
qed

lemma placeholder_fields:
  "map_of d (py ''patent_id'') = None \<Longrightarrow>
     py ''   Patent ID: No patent ID''
       \<in> set (concat (map split_lines (entry_block render i d)))"
  "map_of d (py ''inventor'') = None \<Longrightarrow>
     py ''   Inventor: Unknown inventor''
       \<in> set (concat (map split_lines (entry_block render i d)))"
  "map_of d (py ''assignee'') = None \<Longrightarrow>
     py ''   Assignee: Unknown assignee''
       \<in> set (concat (map split_lines (entry_block render i d)))"
  "map_of d (py ''publication_date'') = None \<Longrightarrow>
     py ''   Publication Date: Unknown date''
       \<in> set (concat (map split_lines (entry_block render i d)))"
  "map_of d (py ''snippet'') = None \<Longrightarrow>
     py ''   Description: No description available''
       \<in> set (concat (map split_lines (entry_block render i d)))"
proof -
  have e: "py ''   Patent ID: No patent ID'' = py ''   Patent ID: '' @ py ''No patent ID''"
    "py ''   Inventor: Unknown inventor'' = py ''   Inventor: '' @ py ''Unknown inventor''"
    "py ''   Assignee: Unknown assignee'' = py ''   Assignee: '' @ py ''Unknown assignee''"
    "py ''   Publication Date: Unknown date''
       = py ''   Publication Date: '' @ py ''Unknown date''"
    "py ''   Description: No description available''
       = py ''   Description: '' @ py ''No description available''"
    by (simp_all add: py_def)
  show "map_of d (py ''patent_id'') = None \<Longrightarrow>
     py ''   Patent ID: No patent ID''
       \<in> set (concat (map split_lines (entry_block render i d)))"
    unfolding e
    by (rule placeholder_line)
       (simp_all add: entry_block_def Let_def dict_get_def labels_single defaults_single)
  show "map_of d (py ''inventor'') = None \<Longrightarrow>
     py ''   Inventor: Unknown inventor''
       \<in> set (concat (map split_lines (entry_block render i d)))"
    unfolding e
    by (rule placeholder_line)
       (simp_all add: entry_block_def Let_def dict_get_def labels_single defaults_single)
  show "map_of d (py ''assignee'') = None \<Longrightarrow>
     py ''   Assignee: Unknown assignee''
       \<in> set (concat (map split_lines (entry_block render i d)))"
    unfolding e
    by (rule placeholder_line)
       (simp_all add: entry_block_def Let_def dict_get_def labels_single defaults_single)
  show "map_of d (py ''publication_date'') = None \<Longrightarrow>
     py ''   Publication Date: Unknown date''
       \<in> set (concat (map split_lines (entry_block render i d)))"
    unfolding e
    by (rule placeholder_line)
       (simp_all add: entry_block_def Let_def dict_get_def labels_single defaults_single)
  show "map_of d (py ''snippet'') = None \<Longrightarrow>
     py ''   Description: No description available''
       \<in> set (concat (map split_lines (entry_block render i d)))"
    unfolding e
    by (rule placeholder_line)
       (simp_all add: entry_block_def Let_def dict_get_def labels_single defaults_single)
qed

text \<open>
  Claim C6.  Let the response have no \<open>error\<close> field and a list of dicts as
  \<open>organic_results\<close>, and let \<open>d\<close> be its record number \<open>k + 1\<close>.  The loop renders it as
  \<open>entry_block\<close>, whose lines are lines of the returned string, and for each of the six
  fields that \<open>d\<close> lacks the line with the fixed placeholder is among them:
  \<open>No title available\<close> after the number, \<open>No patent ID\<close>, \<open>Unknown inventor\<close>,
  \<open>Unknown assignee\<close>, \<open>Unknown date\<close> and \<open>No description available\<close> after their labels.
\<close>

theorem missing_fields_get_placeholders:
  assumes "search (params query) = Inr results"
    and "map_of results (py ''error'') = None"
    and "map_of results (py ''organic_results'') = Some (PList ps)"
    and "list_all is_dict ps" and "k < length ps" and "ps ! k = PDict d"
  shows "format_patent render (Suc k) (ps ! k) = Inr (entry_block render (Suc k) d)
       \<and> set (concat (map split_lines (entry_block render (Suc k) d)))
           \<subseteq> set (split_lines (search_patents search render query))
       \<and> (map_of d (py ''title'') = None \<longrightarrow>
            dec (Suc k) @ py ''. No title available''
              \<in> set (concat (map split_lines (entry_block render (Suc k) d))))
       \<and> (map_of d (py ''snippet'') = None \<longrightarrow>
            py ''   Description: No description available''
              \<in> set (concat (map split_lines (entry_block render (Suc k) d))))
       \<and> (map_of d (py ''patent_id'') = None \<longrightarrow>
            py ''   Patent ID: No patent ID''
              \<in> set (concat (map split_lines (entry_block render (Suc k) d))))
       \<and> (map_of d (py ''inventor'') = None \<longrightarrow>
            py ''   Inventor: Unknown inventor''
              \<in> set (concat (map split_lines (entry_block render (Suc k) d))))
       \<and> (map_of d (py ''assignee'') = None \<longrightarrow>
            py ''   Assignee: Unknown assignee''
              \<in> set (concat (map split_lines (entry_block render (Suc k) d))))
       \<and> (map_of d (py ''publication_date'') = None \<longrightarrow>
            py ''   Publication Date: Unknown date''
              \<in> set (concat (map split_lines (entry_block render (Suc k) d))))"
proof -
  have "format_patent render (Suc k) (ps ! k) = Inr (entry_block render (Suc k) d)"
    using assms(6) by (simp add: format_patent_def)
  moreover have "set (concat (map split_lines (entry_block render (Suc k) d)))
           \<subseteq> set (split_lines (search_patents search render query))"
    using assms by (rule block_lines_in_output)
  ultimately show ?thesis
    using placeholder_title [of d "Suc k" render] placeholder_fields [of d render "Suc k"]
    by blast
qed

theorem missing_fields_get_placeholders_witness:
  "{py ''2. No title available'', py ''   Inventor: Unknown inventor'',
    py ''   Publication Date: Unknown date''}
     \<subseteq> set (split_lines
         (search_patents
            (answering [(py ''organic_results'',
                         PList [PDict [],
                                PDict [(py ''patent_id'', PStr (py ''US1'')),
                                       (py ''assignee'', PStr (py ''Acme'')),
                                       (py ''snippet'', PStr (py ''It whistles.''))]])])
            no_render (py ''kettle'')))"
proof -
  let ?d = "[(py ''patent_id'', PStr (py ''US1'')), (py ''assignee'', PStr (py ''Acme'')),
             (py ''snippet'', PStr (py ''It whistles.''))]"
  let ?ps = "[PDict [], PDict ?d]"
  let ?r = "[(py ''organic_results'', PList ?ps)]"
  have a: "answering ?r (params (py ''kettle'')) = Inr ?r"
    by (simp add: answering_def)
  have e: "map_of ?r (py ''error'') = None" by (simp add: py_def)
  have o: "map_of ?r (py ''organic_results'') = Some (PList ?ps)" by simp
  have l: "list_all is_dict ?ps" by simp
  have k: "(1::nat) < length ?ps" by simp
  have n: "?ps ! 1 = PDict ?d" by simp
  have m: "map_of ?d (py ''title'') = None" "map_of ?d (py ''inventor'') = None"
    "map_of ?d (py ''publication_date'') = None"
    by (simp_all add: py_def)
  have two: "dec (Suc 1) = py ''2''"
    by (subst dec.simps) (simp add: py_def)
  have "dec (Suc 1) @ py ''. No title available'' = py ''2. No title available''"
    unfolding two by (simp add: py_def)
  with m a e o l k n
    missing_fields_get_placeholders [of "answering ?r" "py ''kettle''" ?r ?ps 1 ?d no_render]
  show ?thesis by auto
qed

end
